theory Spec2Isabelle
  imports Complex_Main "HOL-Library.AList" "HOL-Library.Char_ord" "HOL-Library.List_Lexorder"
begin

section \<open>Python strings and slices\<close>

text \<open>
  Python strings are modelled as \<open>string\<close>, one \<open>char\<close> per character of the
  source string. \<open>s[:n]\<close> keeps the first \<open>n\<close> characters when \<open>n\<close> is not negative
  and drops the last \<open>-n\<close> characters when it is.
\<close>

definition py_slice_to :: "string \<Rightarrow> int \<Rightarrow> string" where
  "py_slice_to s n = (if 0 \<le> n then take (nat n) s else take (nat (int (length s) + n)) s)"

definition digit_char :: "nat \<Rightarrow> char" where
  "digit_char d = ''0123456789'' ! d"

text \<open>\<open>str(n)\<close> for a non-negative integer: its decimal digits.\<close>

fun str_of_nat :: "nat \<Rightarrow> string" where
  "str_of_nat n =
     (if n < 10 then [digit_char n] else str_of_nat (n div 10) @ [digit_char (n mod 10)])"

declare str_of_nat.simps [simp del]

section \<open>Tab names: lines 232-239 of \<open>create_summary_for_client\<close>\<close>

text \<open>
  \<^verbatim>\<open>
  new_tab_name = new_tab_name[:31]  # Excel limit
  counter = 1
  original_name = new_tab_name
  while new_tab_name in summary_wb.sheetnames:
      suffix = f"_{counter}"
      new_tab_name = f"{original_name[:31-len(suffix)]}{suffix}"
      counter += 1
  \<close>
  \<open>candidate\<close> is the body's new value of \<open>new_tab_name\<close>, \<open>alloc_loop\<close> the
  \<open>while\<close> loop on the pair \<open>(new_tab_name, counter)\<close>, and \<open>allocate_label\<close> the
  whole fragment (the source has it inline; the name is the specification's).
\<close>

definition candidate :: "string \<Rightarrow> nat \<Rightarrow> string" where
  "candidate original_name counter =
     (let suffix = ''_'' @ str_of_nat counter
      in py_slice_to original_name (31 - int (length suffix)) @ suffix)"

lemma digit_char_inj: "a < 10 \<Longrightarrow> b < 10 \<Longrightarrow> digit_char a = digit_char b \<Longrightarrow> a = b"
proof -
  assume a: "a < 10" and b: "b < 10" and e: "digit_char a = digit_char b"
  have d: "distinct ''0123456789''" by simp
  have l: "length ''0123456789'' = 10" by simp
  from e have "''0123456789'' ! a = ''0123456789'' ! b" by (simp only: digit_char_def)
  with d a b l show "a = b" by (metis nth_eq_iff_index_eq)
qed

lemma digit_char_in: "d < 10 \<Longrightarrow> digit_char d \<in> set ''0123456789''"
  unfolding digit_char_def by (rule nth_mem) simp

lemma str_of_nat_nonempty: "str_of_nat n \<noteq> []"
  by (subst str_of_nat.simps) simp

lemma str_of_nat_digits: "set (str_of_nat n) \<subseteq> set ''0123456789''"
proof (induction n rule: str_of_nat.induct)
  case (1 n)
  show ?case
  proof (cases "n < 10")
    case True
    then show ?thesis using digit_char_in [of n] by (subst str_of_nat.simps) simp
  next
    case False
    have "n mod 10 < 10" by simp
    then have "digit_char (n mod 10) \<in> set ''0123456789''" by (rule digit_char_in)
    with False 1 show ?thesis by (subst str_of_nat.simps) simp
  qed
qed

lemma str_of_nat_no_underscore: "CHR ''_'' \<notin> set (str_of_nat n)"
  using str_of_nat_digits [of n] by auto

lemma str_of_nat_inj: "str_of_nat n = str_of_nat m \<Longrightarrow> n = m"
proof (induction n arbitrary: m rule: str_of_nat.induct)
  case (1 n)
  show ?case
  proof (cases "n < 10")
    case n: True
    show ?thesis
    proof (cases "m < 10")
      case True
      with n 1(2) show ?thesis
        by (simp add: str_of_nat.simps [of n] str_of_nat.simps [of m] digit_char_inj)
    next
      case False
      with n 1(2) str_of_nat_nonempty [of "m div 10"] show ?thesis
        by (simp add: str_of_nat.simps [of n] str_of_nat.simps [of m])
    qed
  next
    case n: False
    show ?thesis
    proof (cases "m < 10")
      case True
      with n 1(2) str_of_nat_nonempty [of "n div 10"] show ?thesis
        by (simp add: str_of_nat.simps [of n] str_of_nat.simps [of m])
    next
      case False
      with n 1(2) have e: "str_of_nat (n div 10) = str_of_nat (m div 10)"
        and d: "digit_char (n mod 10) = digit_char (m mod 10)"
        by (simp_all add: str_of_nat.simps [of n] str_of_nat.simps [of m])
      from 1(1) [OF n e] have q: "n div 10 = m div 10" .
      have "n mod 10 = m mod 10" by (rule digit_char_inj [OF _ _ d]) simp_all
      with q show ?thesis by (metis div_mult_mod_eq)
    qed
  qed
qed


lemma after_last_underscore:
  assumes "CHR ''_'' \<notin> set ds" and "CHR ''_'' \<notin> set ds'"
    and "b @ CHR ''_'' # ds = b' @ CHR ''_'' # ds'"
  shows "ds = ds'"
proof -
  have t: "takeWhile (\<lambda>c. c \<noteq> CHR ''_'') (rev xs @ CHR ''_'' # ys) = rev xs"
    if "CHR ''_'' \<notin> set xs" for xs ys :: string
  proof -
    have "takeWhile (\<lambda>c. c \<noteq> CHR ''_'') (rev xs @ CHR ''_'' # ys) =
               rev xs @ takeWhile (\<lambda>c. c \<noteq> CHR ''_'') (CHR ''_'' # ys)"
      by (rule takeWhile_append2) (use that in auto)
    then show ?thesis by simp
  qed
  from assms(3) have "rev (b @ CHR ''_'' # ds) = rev (b' @ CHR ''_'' # ds')" by simp
  then have "rev ds @ CHR ''_'' # rev b = rev ds' @ CHR ''_'' # rev b'" by simp
  then have "takeWhile (\<lambda>c. c \<noteq> CHR ''_'') (rev ds @ CHR ''_'' # rev b) =
             takeWhile (\<lambda>c. c \<noteq> CHR ''_'') (rev ds' @ CHR ''_'' # rev b')" by simp
  with t [OF assms(1)] t [OF assms(2)] have "rev ds = rev ds'" by simp
  then show ?thesis by simp
qed

lemma candidate_inj: "candidate original_name j = candidate original_name k \<Longrightarrow> j = k"
proof -
  assume "candidate original_name j = candidate original_name k"
  then have "py_slice_to original_name (31 - int (length (''_'' @ str_of_nat j)))
               @ CHR ''_'' # str_of_nat j =
             py_slice_to original_name (31 - int (length (''_'' @ str_of_nat k)))
               @ CHR ''_'' # str_of_nat k"
    by (simp add: candidate_def Let_def)
  then have "str_of_nat j = str_of_nat k"
    by (rule after_last_underscore [OF str_of_nat_no_underscore str_of_nat_no_underscore])
  then show "j = k" by (rule str_of_nat_inj)
qed

lemma finite_colliding: "finite {k. c \<le> k \<and> candidate original_name k \<in> set names}"
proof -
  have "inj (candidate original_name)" by (rule injI) (rule candidate_inj)
  then have "finite (candidate original_name -` set names)"
    by (intro finite_vimageI) simp_all
  then show ?thesis by (rule rev_finite_subset) auto
qed

lemma colliding_step:
  "{k. c \<le> k \<and> candidate original_name k \<in> set names} =
   (if candidate original_name c \<in> set names then {c} else {}) \<union>
   {k. Suc c \<le> k \<and> candidate original_name k \<in> set names}"
  by (auto simp: Suc_le_eq le_less)

function alloc_loop :: "string list \<Rightarrow> string \<Rightarrow> string \<Rightarrow> nat \<Rightarrow> string" where
  "alloc_loop names original_name new_tab_name counter =
     (if new_tab_name \<in> set names
      then alloc_loop names original_name (candidate original_name counter) (counter + 1)
      else new_tab_name)"
  by pat_completeness auto
termination
proof (relation "measure (\<lambda>(names, original_name, new_tab_name, counter).
    (if new_tab_name \<in> set names then 1 else 0) +
    card {k. counter \<le> k \<and> candidate original_name k \<in> set names})")
  show "wf (measure (\<lambda>(names, original_name, new_tab_name, counter).
    (if new_tab_name \<in> set names then 1 else 0) +
    card {k. counter \<le> k \<and> candidate original_name k \<in> set names}))"
    by simp
next
  fix names :: "string list" and original_name new_tab_name :: string and counter :: nat
  assume "new_tab_name \<in> set names"
  moreover have "card {k. counter \<le> k \<and> candidate original_name k \<in> set names} =
    (if candidate original_name counter \<in> set names then 1 else 0) +
    card {k. Suc counter \<le> k \<and> candidate original_name k \<in> set names}"
    by (subst colliding_step) (simp add: finite_colliding)
  ultimately show "((names, original_name, candidate original_name counter, counter + 1),
      (names, original_name, new_tab_name, counter)) \<in>
    measure (\<lambda>(names, original_name, new_tab_name, counter).
      (if new_tab_name \<in> set names then 1 else 0) +
      card {k. counter \<le> k \<and> candidate original_name k \<in> set names})"
    by simp
qed

declare alloc_loop.simps [simp del]

definition allocate_label :: "string \<Rightarrow> string list \<Rightarrow> string" where
  "allocate_label desired names =
     (let new_tab_name = take 31 desired
      in alloc_loop names new_tab_name new_tab_name 1)"

subsection \<open>What the loop returns\<close>


lemma alloc_loop_first_free:
  assumes "new_tab_name \<in> set names"
    and "\<forall>j. counter \<le> j \<and> j < k \<longrightarrow> candidate original_name j \<in> set names"
    and "candidate original_name k \<notin> set names"
    and "counter \<le> k"
  shows "alloc_loop names original_name new_tab_name counter = candidate original_name k"
  using assms
proof (induction "k - counter" arbitrary: counter new_tab_name)
  case 0
  then have "counter = k" by simp
  with 0 show ?case
    by (simp add: alloc_loop.simps [of _ _ new_tab_name] alloc_loop.simps [of _ _ "candidate original_name k"])
next
  case (Suc d)
  then have "candidate original_name counter \<in> set names" by simp
  moreover from Suc have "d = k - Suc counter" "Suc counter \<le> k" by simp_all
  ultimately have "alloc_loop names original_name (candidate original_name counter) (Suc counter)
      = candidate original_name k"
    using Suc.prems by (intro Suc.hyps(1)) auto
  with Suc.prems(1) show ?case by (simp add: alloc_loop.simps [of _ _ new_tab_name])
qed

lemma free_candidate_exists:
  "\<exists>k\<ge>counter. candidate original_name k \<notin> set names \<and>
     (\<forall>j. counter \<le> j \<and> j < k \<longrightarrow> candidate original_name j \<in> set names)"
proof -
  let ?P = "\<lambda>k. counter \<le> k \<and> candidate original_name k \<notin> set names"
  have "\<exists>k. ?P k"
  proof (rule ccontr)
    assume "\<not> (\<exists>k. ?P k)"
    then have "{k. counter \<le> k} \<subseteq> {k. counter \<le> k \<and> candidate original_name k \<in> set names}"
      by auto
    then have "finite {k. counter \<le> k}"
      using finite_colliding by (rule finite_subset)
    moreover have "infinite {k. counter \<le> k}"
      using infinite_Ici [of counter] by (simp add: atLeast_def)
    ultimately show False by simp
  qed
  then obtain k0 where k0: "?P k0" ..
  define k where "k = (LEAST k. ?P k)"
  have Pk: "?P k" unfolding k_def using k0 by (rule LeastI)
  have "\<forall>j. counter \<le> j \<and> j < k \<longrightarrow> candidate original_name j \<in> set names"
  proof (intro allI impI)
    fix j assume j: "counter \<le> j \<and> j < k"
    then have "\<not> ?P j" unfolding k_def using not_less_Least by blast
    with j show "candidate original_name j \<in> set names" by simp
  qed
  with Pk show ?thesis by blast
qed



section \<open>The data model: cell values, cells, worksheets, workbooks\<close>

text \<open>
  A cell value is \<open>None\<close>, a string, a number, a boolean or a \<open>datetime\<close>. Of a
  number the program only observes whether it is zero, so integers stand for all numbers.
\<close>

datatype datetime =
  DateTime (year: nat) (month: nat) (day: nat) (hour: nat) (minute: nat) (second: nat)

datatype py_value = NoneV | StrV string | NumV int | BoolV bool | DateTimeV datetime

text \<open>Python's truth value of a cell value (\<open>if cell.value:\<close>).\<close>

fun truthy :: "py_value \<Rightarrow> bool" where
  "truthy NoneV = False"
| "truthy (StrV s) = (s \<noteq> [])"
| "truthy (NumV n) = (n \<noteq> 0)"
| "truthy (BoolV b) = b"
| "truthy (DateTimeV dt) = True"

text \<open>
  Style objects (\<open>Font\<close>, \<open>Border\<close>, \<open>PatternFill\<close>, \<open>Protection\<close>, \<open>Alignment\<close>)
  live in a store and are held by reference, so that sharing between cells can be stated.
  The content of a style object is its list of attributes. The number format is a string,
  which Python holds by value.
\<close>

type_synonym addr = nat

datatype style_obj = StyleObj "(string \<times> string) list"

record cell_style =
  font :: addr
  border :: addr
  fill :: addr
  number_format :: string
  protection :: addr
  alignment :: addr

record cell =
  val :: py_value
  style :: "cell_style option"

definition empty_cell :: cell where
  "empty_cell = \<lparr>val = NoneV, style = None\<rparr>"

definition has_style :: "cell \<Rightarrow> bool" where
  "has_style c = (style c \<noteq> None)"

text \<open>
  A worksheet holds its cells in a dictionary keyed by (row, column), both counted from 1,
  its column widths keyed by column letter, its row heights keyed by row number, and its
  merged ranges. A coordinate that the dictionary does not hold reads as the empty cell
  (\<open>ws.cell(row, column)\<close> answers with a fresh empty cell there); the empty placeholders
  that reading creates are not recorded.
\<close>

record worksheet =
  cells :: "((nat \<times> nat) \<times> cell) list"
  column_dimensions :: "(string \<times> real option) list"
  row_dimensions :: "(nat \<times> real option) list"
  merged_cells :: "string list"

definition empty_worksheet :: worksheet where
  "empty_worksheet = \<lparr>cells = [], column_dimensions = [], row_dimensions = [], merged_cells = []\<rparr>"

definition cell_at :: "worksheet \<Rightarrow> nat \<times> nat \<Rightarrow> cell" where
  "cell_at ws rc = (case map_of (cells ws) rc of None \<Rightarrow> empty_cell | Some c \<Rightarrow> c)"

definition set_cell :: "worksheet \<Rightarrow> nat \<times> nat \<Rightarrow> cell \<Rightarrow> worksheet" where
  "set_cell ws rc c = ws\<lparr>cells := AList.update rc c (cells ws)\<rparr>"

definition max_row :: "worksheet \<Rightarrow> nat" where
  "max_row ws = fold max (map (\<lambda>p. fst (fst p)) (cells ws)) 0"

definition max_column :: "worksheet \<Rightarrow> nat" where
  "max_column ws = fold max (map (\<lambda>p. snd (fst p)) (cells ws)) 0"

text \<open>
  \<open>ws.iter_rows()\<close>: the rows \<open>1 .. max_row\<close>, each with the columns
  \<open>1 .. max_column\<close>; nothing for a sheet without cells. A cell is named by its
  coordinate (\<open>cell.row\<close>, \<open>cell.column\<close>).
\<close>

definition iter_rows :: "worksheet \<Rightarrow> (nat \<times> nat) list list" where
  "iter_rows ws =
     (if cells ws = [] then []
      else map (\<lambda>r. map (\<lambda>c. (r, c)) [1..<Suc (max_column ws)]) [1..<Suc (max_row ws)])"

text \<open>
  A workbook: its sheets in order, by title, and the store of the style objects its cells
  refer to. \<open>next_addr\<close> is the next free address of the store.
\<close>

record workbook =
  sheets :: "(string \<times> worksheet) list"
  objs :: "addr \<Rightarrow> style_obj option"
  next_addr :: addr

definition sheetnames :: "workbook \<Rightarrow> string list" where
  "sheetnames wb = map fst (sheets wb)"

section \<open>\<open>remove_external_links\<close>\<close>

definition startswith :: "string \<Rightarrow> string \<Rightarrow> bool" where
  "startswith s p = (take (length p) s = p)"

text \<open>
  \<open>re.search(r'\[.*\.xl.*\]', s)\<close>: somewhere in \<open>s\<close> an opening bracket, later
  \<open>.xl\<close>, later a closing bracket, with no line break between the brackets (the dot of
  a regular expression matches every character but the line break). \<open>has_close\<close>
  matches \<open>.*\]\<close> and \<open>xl_close\<close> matches \<open>.*\.xl.*\]\<close> at the start of a string.
\<close>

fun has_close :: "string \<Rightarrow> bool" where
  "has_close [] = False"
| "has_close (c # cs) = (c = CHR '']'' \<or> (c \<noteq> CHR 0x0A \<and> has_close cs))"

fun xl_close :: "string \<Rightarrow> bool" where
  "xl_close [] = False"
| "xl_close (c # cs) =
     ((startswith (c # cs) ''.xl'' \<and> has_close (drop 3 (c # cs))) \<or>
      (c \<noteq> CHR 0x0A \<and> xl_close cs))"

fun re_search_xl :: "string \<Rightarrow> bool" where
  "re_search_xl [] = False"
| "re_search_xl (c # cs) = ((c = CHR ''['' \<and> xl_close cs) \<or> re_search_xl cs)"

text \<open>
  The body of the innermost loop, for the cell at \<open>rc\<close>:
  \<^verbatim>\<open>
  if cell.value and isinstance(cell.value, str):
      if re.search(r'\[.*\.xl.*\]', str(cell.value)) or "'" in str(cell.value):
          try:
              if str(cell.value).startswith('='):
                  if '[' in str(cell.value) and ']' in str(cell.value):
                      cell.value = None  # Clear external references
          except Exception:
              pass
  \<close>
  Nothing in the \<open>try\<close> block raises.
\<close>

definition clear_external_cell :: "worksheet \<Rightarrow> nat \<times> nat \<Rightarrow> worksheet" where
  "clear_external_cell sheet rc =
     (let cell = cell_at sheet rc in
      if truthy (val cell) then
        (case val cell of
           StrV s \<Rightarrow>
             if re_search_xl s \<or> CHR 0x27 \<in> set s then
               (if startswith s ''='' then
                  (if CHR ''['' \<in> set s \<and> CHR '']'' \<in> set s
                   then set_cell sheet rc (cell\<lparr>val := NoneV\<rparr>)
                   else sheet)
                else sheet)
             else sheet
         | _ \<Rightarrow> sheet)
      else sheet)"

definition remove_external_links_sheet :: "worksheet \<Rightarrow> worksheet" where
  "remove_external_links_sheet sheet =
     fold (\<lambda>row sheet. fold (\<lambda>rc sheet. clear_external_cell sheet rc) row sheet)
       (iter_rows sheet) sheet"

definition remove_external_links :: "workbook \<Rightarrow> workbook" where
  "remove_external_links workbook =
     workbook\<lparr>sheets :=
       map (\<lambda>(name, sheet). (name, remove_external_links_sheet sheet)) (sheets workbook)\<rparr>"

section \<open>\<open>extract_date_from_sheet\<close>\<close>

subsection \<open>\<open>datetime.strptime\<close> and \<open>strftime\<close> for the formats of the program\<close>

text \<open>
  \<open>strptime\<close> turns the format into a regular expression, matches it at the start of
  the string, and raises \<open>ValueError\<close> when nothing matches, when characters remain
  after the match, or when the fields are no date. The directives of the program's formats:
  \<open>%Y\<close> is \<open>\d\d\d\d\<close>, \<open>%m\<close> is \<open>1[0-2]|0[1-9]|[1-9]\<close>, \<open>%d\<close> is
  \<open>3[01]|[12]\d|0[1-9]|[1-9]| [1-9]\<close>, any other character stands for itself. Each
  directive lists its matches in the order of its alternatives; \<open>re_match\<close> lists the
  matches of a whole format in the order a backtracking matcher finds them, so its first
  element is the match taken. Digits are the ASCII digits.
\<close>

definition is_digit :: "char \<Rightarrow> bool" where
  "is_digit c = (c \<in> set ''0123456789'')"

definition digit_val :: "char \<Rightarrow> nat" where
  "digit_val c = of_char c - 48"

definition two_digits :: "string \<Rightarrow> string \<Rightarrow> string \<Rightarrow> (nat \<times> string) list" where
  "two_digits firsts seconds s =
     (case s of
        a # b # r \<Rightarrow>
          if a \<in> set firsts \<and> b \<in> set seconds then [(10 * digit_val a + digit_val b, r)] else []
      | _ \<Rightarrow> [])"

definition one_digit :: "string \<Rightarrow> string \<Rightarrow> (nat \<times> string) list" where
  "one_digit digits s =
     (case s of a # r \<Rightarrow> if a \<in> set digits then [(digit_val a, r)] else [] | [] \<Rightarrow> [])"

definition re_Y :: "string \<Rightarrow> (nat \<times> string) list" where
  "re_Y s =
     (case s of
        a # b # c # d # r \<Rightarrow>
          if is_digit a \<and> is_digit b \<and> is_digit c \<and> is_digit d
          then [(1000 * digit_val a + 100 * digit_val b + 10 * digit_val c + digit_val d, r)]
          else []
      | _ \<Rightarrow> [])"

definition re_m :: "string \<Rightarrow> (nat \<times> string) list" where
  "re_m s = two_digits ''1'' ''012'' s @ two_digits ''0'' ''123456789'' s @ one_digit ''123456789'' s"

definition re_d :: "string \<Rightarrow> (nat \<times> string) list" where
  "re_d s =
     two_digits ''3'' ''01'' s @ two_digits ''12'' ''0123456789'' s @
     two_digits ''0'' ''123456789'' s @ one_digit ''123456789'' s @
     (case s of a # r \<Rightarrow> if a = CHR '' '' then one_digit ''123456789'' r else [] | [] \<Rightarrow> [])"

datatype directive = DirY | DirM | DirD | Lit char

fun compile_format :: "string \<Rightarrow> directive list" where
  "compile_format (p # c # r) =
     (if p = CHR ''%'' \<and> c = CHR ''Y'' then DirY # compile_format r
      else if p = CHR ''%'' \<and> c = CHR ''m'' then DirM # compile_format r
      else if p = CHR ''%'' \<and> c = CHR ''d'' then DirD # compile_format r
      else Lit p # compile_format (c # r))"
| "compile_format [p] = [Lit p]"
| "compile_format [] = []"

fun re_match :: "directive list \<Rightarrow> string \<Rightarrow> nat \<times> nat \<times> nat \<Rightarrow> ((nat \<times> nat \<times> nat) \<times> string) list" where
  "re_match [] s ymd = [(ymd, s)]"
| "re_match (DirY # ds) s (y, m, d) = concat (map (\<lambda>(v, r). re_match ds r (v, m, d)) (re_Y s))"
| "re_match (DirM # ds) s (y, m, d) = concat (map (\<lambda>(v, r). re_match ds r (y, v, d)) (re_m s))"
| "re_match (DirD # ds) s (y, m, d) = concat (map (\<lambda>(v, r). re_match ds r (y, m, v)) (re_d s))"
| "re_match (Lit c # ds) s ymd =
     (case s of a # r \<Rightarrow> if a = c then re_match ds r ymd else [] | [] \<Rightarrow> [])"

definition is_leap :: "nat \<Rightarrow> bool" where
  "is_leap y = (y mod 4 = 0 \<and> (y mod 100 \<noteq> 0 \<or> y mod 400 = 0))"

definition days_in_month :: "nat \<Rightarrow> nat \<Rightarrow> nat" where
  "days_in_month y m =
     (if m = 2 then (if is_leap y then 29 else 28)
      else if m = 4 \<or> m = 6 \<or> m = 9 \<or> m = 11 then 30 else 31)"

definition valid_date :: "nat \<Rightarrow> nat \<Rightarrow> nat \<Rightarrow> bool" where
  "valid_date y m d =
     (1 \<le> y \<and> y \<le> 9999 \<and> 1 \<le> m \<and> m \<le> 12 \<and> 1 \<le> d \<and> d \<le> days_in_month y m)"

text \<open>\<open>None\<close> stands for the \<open>ValueError\<close> that the program catches.\<close>

definition strptime :: "string \<Rightarrow> string \<Rightarrow> datetime option" where
  "strptime data_string format =
     (case re_match (compile_format format) data_string (1900, 1, 1) of
        [] \<Rightarrow> None
      | ((y, m, d), rest) # _ \<Rightarrow>
          if rest \<noteq> [] then None
          else if valid_date y m d then Some (DateTime y m d 0 0 0)
          else None)"

definition zero_pad :: "nat \<Rightarrow> nat \<Rightarrow> string" where
  "zero_pad w n = replicate (w - length (str_of_nat n)) CHR ''0'' @ str_of_nat n"

text \<open>\<open>dt.strftime("%Y%m%d")\<close>, the year written with four digits.\<close>

definition strftime_ymd :: "datetime \<Rightarrow> string" where
  "strftime_ymd dt = zero_pad 4 (year dt) @ zero_pad 2 (month dt) @ zero_pad 2 (day dt)"

subsection \<open>The scan of the first five rows and columns\<close>

text \<open>
  The loop over the formats: the first format that parses sets \<open>date_value\<close> and leaves
  the loop; a \<open>ValueError\<close> goes on to the next format.
\<close>

fun try_formats :: "string \<Rightarrow> string list \<Rightarrow> string option \<Rightarrow> string option" where
  "try_formats cell_value [] date_value = date_value"
| "try_formats cell_value (date_format # formats) date_value =
     (case strptime cell_value date_format of
        Some parsed_date \<Rightarrow> Some (strftime_ymd parsed_date)
      | None \<Rightarrow> try_formats cell_value formats date_value)"

text \<open>\<open>if date_value:\<close> on a value that is \<open>None\<close> or a string.\<close>

definition truthy_str :: "string option \<Rightarrow> bool" where
  "truthy_str v = (case v of None \<Rightarrow> False | Some s \<Rightarrow> s \<noteq> [])"

text \<open>
  The inner loop over the columns of one row. A \<open>datetime\<close> sets \<open>date_value\<close> and
  leaves the loop; a string leaves it when one of the formats parsed.
\<close>

fun scan_cols :: "worksheet \<Rightarrow> nat \<Rightarrow> nat list \<Rightarrow> string option \<Rightarrow> string option" where
  "scan_cols client_ws row [] date_value = date_value"
| "scan_cols client_ws row (col # cols) date_value =
     (let cell_value = val (cell_at client_ws (row, col)) in
      if truthy cell_value then
        (case cell_value of
           DateTimeV dt \<Rightarrow> Some (strftime_ymd dt)
         | StrV s \<Rightarrow>
             (let date_value =
                    try_formats s [''%Y-%m-%d'', ''%m/%d/%Y'', ''%d/%m/%Y'', ''%Y%m%d''] date_value
              in if truthy_str date_value then date_value
                 else scan_cols client_ws row cols date_value)
         | _ \<Rightarrow> scan_cols client_ws row cols date_value)
      else scan_cols client_ws row cols date_value)"

text \<open>The outer loop over the rows, left as soon as \<open>date_value\<close> is set.\<close>

fun scan_rows :: "worksheet \<Rightarrow> nat list \<Rightarrow> string option \<Rightarrow> string option" where
  "scan_rows client_ws [] date_value = date_value"
| "scan_rows client_ws (row # rows) date_value =
     (let date_value = scan_cols client_ws row [1..<6] date_value in
      if truthy_str date_value then date_value else scan_rows client_ws rows date_value)"

definition extract_date_from_sheet :: "worksheet \<Rightarrow> string option" where
  "extract_date_from_sheet client_ws = scan_rows client_ws [1..<6] None"

subsection \<open>Facts about the pattern and the grid\<close>

lemma has_close_iff:
  "has_close s \<longleftrightarrow> (\<exists>c d. s = c @ CHR '']'' # d \<and> CHR 0x0A \<notin> set c)"
proof (induction s)
  case Nil
  show ?case by simp
next
  case (Cons x xs)
  show ?case
  proof
    assume "has_close (x # xs)"
    then consider "x = CHR '']''" | "x \<noteq> CHR 0x0A" "has_close xs" by auto
    then show "\<exists>c d. x # xs = c @ CHR '']'' # d \<and> CHR 0x0A \<notin> set c"
    proof cases
      case 1
      then have "x # xs = [] @ CHR '']'' # xs \<and> CHR 0x0A \<notin> set []" by simp
      then show ?thesis by blast
    next
      case 2
      with Cons obtain c d where "xs = c @ CHR '']'' # d" "CHR 0x0A \<notin> set c" by blast
      with 2 have "x # xs = (x # c) @ CHR '']'' # d \<and> CHR 0x0A \<notin> set (x # c)" by simp
      then show ?thesis by blast
    qed
  next
    assume "\<exists>c d. x # xs = c @ CHR '']'' # d \<and> CHR 0x0A \<notin> set c"
    then obtain c d where e: "x # xs = c @ CHR '']'' # d" and n: "CHR 0x0A \<notin> set c" by blast
    show "has_close (x # xs)"
    proof (cases c)
      case Nil
      with e show ?thesis by simp
    next
      case (Cons y c')
      with e n have "x \<noteq> CHR 0x0A" "xs = c' @ CHR '']'' # d" "CHR 0x0A \<notin> set c'" by auto
      with Cons.IH show ?thesis by auto
    qed
  qed
qed

lemma xl_close_iff:
  "xl_close s \<longleftrightarrow>
   (\<exists>b c d. s = b @ ''.xl'' @ c @ CHR '']'' # d \<and> CHR 0x0A \<notin> set b \<and> CHR 0x0A \<notin> set c)"
proof (induction s)
  case Nil
  show ?case by simp
next
  case (Cons x xs)
  show ?case
  proof
    assume "xl_close (x # xs)"
    then consider "startswith (x # xs) ''.xl''" "has_close (drop 3 (x # xs))"
      | "x \<noteq> CHR 0x0A" "xl_close xs" by auto
    then show "\<exists>b c d. x # xs = b @ ''.xl'' @ c @ CHR '']'' # d \<and>
        CHR 0x0A \<notin> set b \<and> CHR 0x0A \<notin> set c"
    proof cases
      case 1
      from 1(2) obtain c d where cd: "drop 3 (x # xs) = c @ CHR '']'' # d" "CHR 0x0A \<notin> set c"
        unfolding has_close_iff by blast
      have l: "length ''.xl'' = 3" by simp
      from 1(1) have "x # xs = ''.xl'' @ drop (length ''.xl'') (x # xs)"
        unfolding startswith_def by (metis append_take_drop_id)
      then have "x # xs = ''.xl'' @ drop 3 (x # xs)" unfolding l .
      with cd have "x # xs = [] @ ''.xl'' @ c @ CHR '']'' # d \<and>
        CHR 0x0A \<notin> set [] \<and> CHR 0x0A \<notin> set c" by simp
      then show ?thesis by blast
    next
      case 2
      with Cons obtain b c d where "xs = b @ ''.xl'' @ c @ CHR '']'' # d"
        "CHR 0x0A \<notin> set b" "CHR 0x0A \<notin> set c" by blast
      with 2 have "x # xs = (x # b) @ ''.xl'' @ c @ CHR '']'' # d \<and>
        CHR 0x0A \<notin> set (x # b) \<and> CHR 0x0A \<notin> set c" by simp
      then show ?thesis by blast
    qed
  next
    assume "\<exists>b c d. x # xs = b @ ''.xl'' @ c @ CHR '']'' # d \<and>
        CHR 0x0A \<notin> set b \<and> CHR 0x0A \<notin> set c"
    then obtain b c d where e: "x # xs = b @ ''.xl'' @ c @ CHR '']'' # d"
      and n: "CHR 0x0A \<notin> set b" "CHR 0x0A \<notin> set c" by blast
    show "xl_close (x # xs)"
    proof (cases b)
      case Nil
      with e have "startswith (x # xs) ''.xl''" "drop 3 (x # xs) = c @ CHR '']'' # d"
        by (simp_all add: startswith_def)
      with n(2) have "startswith (x # xs) ''.xl'' \<and> has_close (drop 3 (x # xs))"
        unfolding has_close_iff by blast
      then show ?thesis by (simp del: has_close.simps)
    next
      case (Cons y b')
      with e n have "x \<noteq> CHR 0x0A" "xs = b' @ ''.xl'' @ c @ CHR '']'' # d"
        "CHR 0x0A \<notin> set b'" by auto
      with n(2) Cons.IH show ?thesis by auto
    qed
  qed
qed

lemma re_search_xl_iff:
  "re_search_xl s \<longleftrightarrow>
   (\<exists>a b c d. s = a @ CHR ''['' # b @ ''.xl'' @ c @ CHR '']'' # d \<and>
      CHR 0x0A \<notin> set b \<and> CHR 0x0A \<notin> set c)"
proof (induction s)
  case Nil
  show ?case by simp
next
  case (Cons x xs)
  show ?case
  proof
    assume "re_search_xl (x # xs)"
    then consider "x = CHR ''[''" "xl_close xs" | "re_search_xl xs" by auto
    then show "\<exists>a b c d. x # xs = a @ CHR ''['' # b @ ''.xl'' @ c @ CHR '']'' # d \<and>
      CHR 0x0A \<notin> set b \<and> CHR 0x0A \<notin> set c"
    proof cases
      case 1
      from 1(2) obtain b c d where "xs = b @ ''.xl'' @ c @ CHR '']'' # d"
        "CHR 0x0A \<notin> set b" "CHR 0x0A \<notin> set c" unfolding xl_close_iff by blast
      with 1(1) have "x # xs = [] @ CHR ''['' # b @ ''.xl'' @ c @ CHR '']'' # d \<and>
        CHR 0x0A \<notin> set b \<and> CHR 0x0A \<notin> set c" by simp
      then show ?thesis by blast
    next
      case 2
      with Cons obtain a b c d where "xs = a @ CHR ''['' # b @ ''.xl'' @ c @ CHR '']'' # d"
        "CHR 0x0A \<notin> set b" "CHR 0x0A \<notin> set c" by blast
      then have "x # xs = (x # a) @ CHR ''['' # b @ ''.xl'' @ c @ CHR '']'' # d \<and>
        CHR 0x0A \<notin> set b \<and> CHR 0x0A \<notin> set c" by simp
      then show ?thesis by blast
    qed
  next
    assume "\<exists>a b c d. x # xs = a @ CHR ''['' # b @ ''.xl'' @ c @ CHR '']'' # d \<and>
      CHR 0x0A \<notin> set b \<and> CHR 0x0A \<notin> set c"
    then obtain a b c d where e: "x # xs = a @ CHR ''['' # b @ ''.xl'' @ c @ CHR '']'' # d"
      and n: "CHR 0x0A \<notin> set b" "CHR 0x0A \<notin> set c" by blast
    show "re_search_xl (x # xs)"
    proof (cases a)
      case Nil
      with e have "x = CHR ''[''" "xs = b @ ''.xl'' @ c @ CHR '']'' # d" by simp_all
      with n have "x = CHR ''['' \<and> xl_close xs" unfolding xl_close_iff by blast
      then show ?thesis by simp
    next
      case (Cons y a')
      with e have "xs = a' @ CHR ''['' # b @ ''.xl'' @ c @ CHR '']'' # d" by simp
      with n Cons.IH have "re_search_xl xs" by blast
      then show ?thesis by simp
    qed
  qed
qed

lemma fold_max_ge_init: "(a::nat) \<le> fold max xs a"
  by (induction xs arbitrary: a) (auto intro: le_trans [OF max.cobounded2])

lemma fold_max_ge: "x \<in> set xs \<Longrightarrow> (x::nat) \<le> fold max xs a"
proof (induction xs arbitrary: a)
  case Nil
  then show ?case by simp
next
  case (Cons y ys)
  show ?case
  proof (cases "x = y")
    case True
    have "max y a \<le> fold max ys (max y a)" by (rule fold_max_ge_init)
    with True show ?thesis by simp
  next
    case False
    with Cons show ?thesis by simp
  qed
qed

lemma in_grid:
  "(r, c) \<in> set (concat (map (\<lambda>r. map (\<lambda>c. (r, c)) cs) rs)) \<longleftrightarrow> r \<in> set rs \<and> c \<in> set cs"
  by auto

lemma in_iter_rows:
  assumes "map_of (cells ws) (r, c) = Some x" and "1 \<le> r" and "1 \<le> c"
  shows "(r, c) \<in> set (concat (iter_rows ws))"
proof -
  from assms(1) have m: "((r, c), x) \<in> set (cells ws)" by (rule map_of_SomeD)
  then have ne: "cells ws \<noteq> []" by auto
  from m have "r \<in> set (map (\<lambda>p. fst (fst p)) (cells ws))" by force
  then have r: "r \<le> max_row ws" unfolding max_row_def by (rule fold_max_ge)
  from m have "c \<in> set (map (\<lambda>p. snd (fst p)) (cells ws))" by force
  then have c: "c \<le> max_column ws" unfolding max_column_def by (rule fold_max_ge)
  from r c assms(2,3) have "r \<in> set [1..<Suc (max_row ws)] \<and> c \<in> set [1..<Suc (max_column ws)]"
    by (simp del: upt_Suc)
  then have "(r, c) \<in> set (concat (map (\<lambda>r. map (\<lambda>c. (r, c)) [1..<Suc (max_column ws)])
      [1..<Suc (max_row ws)]))"
    by (simp only: in_grid)
  with ne show ?thesis by (simp only: iter_rows_def if_False)
qed

lemma cell_at_set_cell:
  "cell_at (set_cell ws rc c) rc' = (if rc' = rc then c else cell_at ws rc')"
  by (simp add: cell_at_def set_cell_def update_conv')

subsection \<open>Which values the scan clears\<close>

text \<open>
  \<open>clears\<close> gathers the tests of the loop body into one condition on the value of a
  cell, and \<open>sanitized\<close> is the cell after the body. \<open>quoted_formula_book\<close> is a
  workbook with a formula that names a quoted sheet and no workbook, a formula with a
  bracketed workbook, and a text with brackets.
\<close>

definition clears :: "py_value \<Rightarrow> bool" where
  "clears v =
     (case v of
        StrV s \<Rightarrow>
          startswith s ''='' \<and> CHR ''['' \<in> set s \<and> CHR '']'' \<in> set s \<and>
          (re_search_xl s \<or> CHR 0x27 \<in> set s)
      | _ \<Rightarrow> False)"

definition sanitized :: "cell \<Rightarrow> cell" where
  "sanitized cell = (if clears (val cell) then cell\<lparr>val := NoneV\<rparr> else cell)"

definition quoted_formula_book :: workbook where
  "quoted_formula_book =
     \<lparr>sheets =
        [(''tab1'', empty_worksheet\<lparr>cells :=
            [((1, 1), \<lparr>val = StrV (CHR ''='' # CHR 0x27 # ''Sheet 2'' @ CHR 0x27 # ''!A1''), style = None\<rparr>),
             ((1, 2), \<lparr>val = StrV (''='' @ CHR 0x27 # ''[Book1.xlsx]Sheet1'' @ CHR 0x27 # ''!A1''), style = None\<rparr>),
             ((2, 1), \<lparr>val = StrV ''see [notes]'', style = None\<rparr>)]\<rparr>)],
      objs = (\<lambda>a. None), next_addr = 0\<rparr>"

lemma clear_external_cell_at:
  "cell_at (clear_external_cell sheet rc) rc' =
     (if rc' = rc then sanitized (cell_at sheet rc) else cell_at sheet rc')"
proof (cases "val (cell_at sheet rc)")
  case (StrV s)
  have "startswith [] ''='' = False" by (simp add: startswith_def)
  with StrV show ?thesis
    by (cases "s = []")
       (auto simp: clear_external_cell_def Let_def sanitized_def clears_def cell_at_set_cell)
qed (simp_all add: clear_external_cell_def Let_def sanitized_def clears_def)

lemma sanitized_idem: "sanitized (sanitized cell) = sanitized cell"
  by (simp add: sanitized_def clears_def)

lemma fold_clear_at:
  "cell_at (fold (\<lambda>rc sheet. clear_external_cell sheet rc) rcs sheet) rc' =
     (if rc' \<in> set rcs then sanitized (cell_at sheet rc') else cell_at sheet rc')"
proof (induction rcs arbitrary: sheet)
  case Nil
  show ?case by simp
next
  case (Cons rc rcs)
  show ?case by (simp add: Cons clear_external_cell_at sanitized_idem)
qed

lemma sanitized_empty: "sanitized empty_cell = empty_cell"
  by (simp add: sanitized_def clears_def empty_cell_def)

lemma remove_external_links_sheet_at:
  assumes "1 \<le> r" and "1 \<le> c"
  shows "cell_at (remove_external_links_sheet sheet) (r, c) = sanitized (cell_at sheet (r, c))"
proof -
  have f: "fold (\<lambda>row sheet. fold (\<lambda>rc sheet. clear_external_cell sheet rc) row sheet) rows sh =
        fold (\<lambda>rc sheet. clear_external_cell sheet rc) (concat rows) sh" for rows sh
    by (induction rows arbitrary: sh) simp_all
  show ?thesis
  proof (cases "map_of (cells sheet) (r, c)")
    case None
    then have "cell_at sheet (r, c) = empty_cell" by (simp add: cell_at_def)
    then show ?thesis
      by (simp add: remove_external_links_sheet_def f fold_clear_at sanitized_empty)
  next
    case (Some x)
    from in_iter_rows [OF Some assms] show ?thesis
      by (simp add: remove_external_links_sheet_def f fold_clear_at)
  qed
qed

subsection \<open>The scan, said in one pass\<close>

text \<open>
  What one cell of the window yields on its own: a \<open>datetime\<close> its date, a string the
  date of the first format that parses it, anything else nothing. \<open>window_cells\<close> is the
  window of the first five rows and columns in row-major order.
\<close>

fun first_some :: "'a option list \<Rightarrow> 'a option" where
  "first_some [] = None"
| "first_some (None # xs) = first_some xs"
| "first_some (Some x # xs) = Some x"

definition cell_date :: "py_value \<Rightarrow> string option" where
  "cell_date v =
     (case v of
        DateTimeV dt \<Rightarrow> Some (strftime_ymd dt)
      | StrV s \<Rightarrow>
          first_some (map (\<lambda>f. map_option strftime_ymd (strptime s f))
            [''%Y-%m-%d'', ''%m/%d/%Y'', ''%d/%m/%Y'', ''%Y%m%d''])
      | _ \<Rightarrow> None)"

definition window_cells :: "(nat \<times> nat) list" where
  "window_cells = concat (map (\<lambda>r. map (\<lambda>c. (r, c)) [1..<6]) [1..<6])"

text \<open>
  A sheet with a date string at (1,1) and a \<open>datetime\<close> at (2,2).
\<close>

definition string_before_datetime :: worksheet where
  "string_before_datetime =
     empty_worksheet\<lparr>cells :=
       [((1, 1), \<lparr>val = StrV ''2024-01-15'', style = None\<rparr>),
        ((2, 2), \<lparr>val = DateTimeV (DateTime 2023 5 6 0 0 0), style = None\<rparr>)]\<rparr>"

lemma first_some_append:
  "first_some (xs @ ys) = (case first_some xs of Some x \<Rightarrow> Some x | None \<Rightarrow> first_some ys)"
  by (induction xs rule: first_some.induct) simp_all

lemma first_some_nth:
  "i < length xs \<Longrightarrow> xs ! i = Some v \<Longrightarrow> \<forall>j<i. xs ! j = None \<Longrightarrow> first_some xs = Some v"
proof (induction xs arbitrary: i rule: first_some.induct)
  case 1
  then show ?case by simp
next
  case (2 xs)
  show ?case
  proof (cases i)
    case 0
    with 2(3) show ?thesis by simp
  next
    case (Suc k)
    with 2(2,3,4) have "k < length xs" "xs ! k = Some v" "\<forall>j<k. xs ! j = None" by auto
    then show ?thesis using 2(1) by simp
  qed
next
  case (3 x xs)
  have "i = 0"
  proof (rule ccontr)
    assume "i \<noteq> 0"
    then have "(Some x # xs) ! 0 = None" using 3(3) by blast
    then show False by simp
  qed
  with 3(2) show ?case by simp
qed

lemma zero_pad_nonempty: "zero_pad w n \<noteq> []"
  by (simp add: zero_pad_def str_of_nat_nonempty)

lemma strftime_ymd_nonempty: "strftime_ymd dt \<noteq> []"
  by (simp add: strftime_ymd_def zero_pad_nonempty)

lemma try_formats_first:
  "try_formats s fs date_value =
     (case first_some (map (\<lambda>f. map_option strftime_ymd (strptime s f)) fs) of
        Some x \<Rightarrow> Some x | None \<Rightarrow> date_value)"
  by (induction fs) (auto split: option.splits)

lemma first_some_in: "first_some xs = Some x \<Longrightarrow> Some x \<in> set xs"
  by (induction xs rule: first_some.induct) simp_all

lemma cell_date_truthy: "cell_date v = Some x \<Longrightarrow> x \<noteq> []"
proof (cases v)
  case (StrV s)
  assume "cell_date v = Some x"
  with StrV have "Some x \<in> set (map (\<lambda>f. map_option strftime_ymd (strptime s f))
      [''%Y-%m-%d'', ''%m/%d/%Y'', ''%d/%m/%Y'', ''%Y%m%d''])"
    by (intro first_some_in) (simp add: cell_date_def)
  then obtain f where "Some x = map_option strftime_ymd (strptime s f)" by auto
  then obtain dt where "x = strftime_ymd dt" by (cases "strptime s f") auto
  then show ?thesis by (simp add: strftime_ymd_nonempty)
qed (auto simp: cell_date_def strftime_ymd_nonempty)

lemma strptime_empty: "strptime [] f = None" if "f \<in> set [''%Y-%m-%d'', ''%m/%d/%Y'', ''%d/%m/%Y'', ''%Y%m%d'']"
  using that by (auto simp: strptime_def re_Y_def re_m_def re_d_def two_digits_def one_digit_def)

lemma cell_date_falsy: "\<not> truthy v \<Longrightarrow> cell_date v = None"
  by (cases v) (simp_all add: cell_date_def strptime_empty)

lemma scan_cols_first:
  "scan_cols ws row cols None = first_some (map (\<lambda>c. cell_date (val (cell_at ws (row, c)))) cols)"
proof (induction cols)
  case Nil
  show ?case by simp
next
  case (Cons col cols)
  let ?v = "val (cell_at ws (row, col))"
  show ?case
  proof (cases "truthy ?v")
    case False
    with Cons show ?thesis by (simp add: cell_date_falsy)
  next
    case True
    show ?thesis
    proof (cases ?v)
      case (StrV s)
      show ?thesis
      proof (cases "cell_date ?v")
        case None
        with StrV True Cons show ?thesis
          by (simp add: try_formats_first cell_date_def truthy_str_def)
      next
        case (Some x)
        with cell_date_truthy [OF Some] StrV True show ?thesis
          by (simp add: try_formats_first cell_date_def truthy_str_def)
      qed
    qed (use True Cons in \<open>simp_all add: cell_date_def\<close>)
  qed
qed

lemma scan_rows_first:
  "scan_rows ws rows None =
     first_some (concat (map (\<lambda>r. map (\<lambda>c. cell_date (val (cell_at ws (r, c)))) [1..<6]) rows))"
proof (induction rows)
  case Nil
  show ?case by simp
next
  case (Cons row rows)
  show ?case
  proof (cases "scan_cols ws row [1..<6] None")
    case None
    with Cons show ?thesis
      by (simp add: truthy_str_def first_some_append scan_cols_first del: scan_cols.simps)
  next
    case (Some x)
    then have "first_some (map (\<lambda>c. cell_date (val (cell_at ws (row, c)))) [1..<6]) = Some x"
      by (simp only: scan_cols_first)
    moreover have "x \<noteq> []"
    proof -
      from calculation have "Some x \<in> set (map (\<lambda>c. cell_date (val (cell_at ws (row, c)))) [1..<6])"
        by (rule first_some_in)
      then obtain c where "cell_date (val (cell_at ws (row, c))) = Some x"
        by (auto simp del: upt_Suc)
      then show ?thesis by (rule cell_date_truthy)
    qed
    ultimately show ?thesis using Some
      by (simp add: truthy_str_def first_some_append del: scan_cols.simps)
  qed
qed

lemma single_pass:
  "extract_date_from_sheet ws =
     first_some (map (\<lambda>rc. cell_date (val (cell_at ws rc))) window_cells)"
  by (simp only: extract_date_from_sheet_def scan_rows_first window_cells_def map_concat map_map comp_def)

section \<open>\<open>copy_tab1_format_with_client_data\<close>\<close>

text \<open>
  \<open>copy(obj)\<close> makes a new object with the content of \<open>obj\<close>: it takes the next free
  address of the store and answers with it.
\<close>

definition py_copy :: "workbook \<Rightarrow> addr \<Rightarrow> addr \<times> workbook" where
  "py_copy wb a =
     (next_addr wb,
      wb\<lparr>objs := (objs wb)(next_addr wb := objs wb a), next_addr := Suc (next_addr wb)\<rparr>)"

text \<open>
  The body of the first loop, for the template cell at \<open>rc\<close>:
  \<^verbatim>\<open>
  new_cell = new_ws.cell(row=cell.row, column=cell.column)
  if cell.has_style:
      new_cell.font = copy(cell.font)
      new_cell.border = copy(cell.border)
      new_cell.fill = copy(cell.fill)
      new_cell.number_format = cell.number_format
      new_cell.protection = copy(cell.protection)
      new_cell.alignment = copy(cell.alignment)
  \<close>
  The state of the loop is the workbook, whose store the copies extend, and the new sheet.
\<close>

definition copy_cell_format ::
  "worksheet \<Rightarrow> nat \<times> nat \<Rightarrow> workbook \<times> worksheet \<Rightarrow> workbook \<times> worksheet" where
  "copy_cell_format tab1_ws rc state =
     (let (wb, new_ws) = state;
          cell = cell_at tab1_ws rc;
          new_cell = cell_at new_ws rc
      in case style cell of
           None \<Rightarrow> (wb, new_ws)
         | Some st \<Rightarrow>
             (let (font', wb) = py_copy wb (font st);
                  (border', wb) = py_copy wb (border st);
                  (fill', wb) = py_copy wb (fill st);
                  (protection', wb) = py_copy wb (protection st);
                  (alignment', wb) = py_copy wb (alignment st)
              in (wb,
                  set_cell new_ws rc
                    (new_cell\<lparr>style := Some \<lparr>font = font', border = border', fill = fill',
                       number_format = number_format st, protection = protection',
                       alignment = alignment'\<rparr>\<rparr>))))"

definition copy_formats :: "worksheet \<Rightarrow> workbook \<times> worksheet \<Rightarrow> workbook \<times> worksheet" where
  "copy_formats tab1_ws state =
     fold (\<lambda>row state. fold (copy_cell_format tab1_ws) row state) (iter_rows tab1_ws) state"

text \<open>
  The dimensions: \<open>new_ws.column_dimensions[col].width = tab1_ws.column_dimensions[col].width\<close>
  for every key of the template's dictionary, and the same for the heights of the rows.
\<close>

definition dimension_of :: "('k \<times> real option) list \<Rightarrow> 'k \<Rightarrow> real option" where
  "dimension_of dims k = (case map_of dims k of None \<Rightarrow> None | Some w \<Rightarrow> w)"

definition copy_column_dimensions :: "worksheet \<Rightarrow> worksheet \<Rightarrow> worksheet" where
  "copy_column_dimensions tab1_ws new_ws =
     fold (\<lambda>col new_ws.
             new_ws\<lparr>column_dimensions :=
               AList.update col (dimension_of (column_dimensions tab1_ws) col)
                 (column_dimensions new_ws)\<rparr>)
       (map fst (column_dimensions tab1_ws)) new_ws"

definition copy_row_dimensions :: "worksheet \<Rightarrow> worksheet \<Rightarrow> worksheet" where
  "copy_row_dimensions tab1_ws new_ws =
     fold (\<lambda>row new_ws.
             new_ws\<lparr>row_dimensions :=
               AList.update row (dimension_of (row_dimensions tab1_ws) row)
                 (row_dimensions new_ws)\<rparr>)
       (map fst (row_dimensions tab1_ws)) new_ws"

text \<open>\<open>new_ws.merge_cells(str(merged_cell_range))\<close> records the range on the new sheet.\<close>

definition copy_merged_cells :: "worksheet \<Rightarrow> worksheet \<Rightarrow> worksheet" where
  "copy_merged_cells tab1_ws new_ws =
     fold (\<lambda>merged_cell_range new_ws.
             new_ws\<lparr>merged_cells := merged_cells new_ws @ [merged_cell_range]\<rparr>)
       (merged_cells tab1_ws) new_ws"

text \<open>
  The body of the last loop, for the client cell at \<open>rc\<close>:
  \<^verbatim>\<open>
  if cell.value is not None:  # Only copy non-empty cells
      target_cell = new_ws.cell(row=cell.row, column=cell.column)
      target_cell.value = cell.value
  \<close>
  Setting the value leaves the style of the target cell as it is.
\<close>

definition copy_cell_value :: "worksheet \<Rightarrow> nat \<times> nat \<Rightarrow> worksheet \<Rightarrow> worksheet" where
  "copy_cell_value client_ws rc new_ws =
     (let cell = cell_at client_ws rc in
      if val cell \<noteq> NoneV
      then (let target_cell = cell_at new_ws rc
            in set_cell new_ws rc (target_cell\<lparr>val := val cell\<rparr>))
      else new_ws)"

definition copy_values :: "worksheet \<Rightarrow> worksheet \<Rightarrow> worksheet" where
  "copy_values client_ws new_ws =
     fold (\<lambda>row new_ws. fold (copy_cell_value client_ws) row new_ws) (iter_rows client_ws) new_ws"

text \<open>
  The function. \<open>tab1\<close> is the reference to the template sheet, its position among the
  sheets of \<open>source_wb\<close>. \<open>create_sheet\<close> appends an empty sheet and answers with a
  reference to it; the loops write through this reference only, so the sheet is kept in
  \<open>new_ws\<close> while they run and stands in the workbook, at the position returned, with
  what they wrote.
\<close>

definition copy_tab1_format_with_client_data ::
  "workbook \<Rightarrow> nat \<Rightarrow> worksheet \<Rightarrow> string \<Rightarrow> workbook \<times> nat" where
  "copy_tab1_format_with_client_data source_wb tab1 client_ws new_tab_name =
     (let tab1_ws = snd (sheets source_wb ! tab1);
          new_ws = empty_worksheet;
          (wb, new_ws) = copy_formats tab1_ws (source_wb, new_ws);
          new_ws = copy_column_dimensions tab1_ws new_ws;
          new_ws = copy_row_dimensions tab1_ws new_ws;
          new_ws = copy_merged_cells tab1_ws new_ws;
          new_ws = copy_values client_ws new_ws
      in (wb\<lparr>sheets := sheets wb @ [(new_tab_name, new_ws)]\<rparr>, length (sheets wb)))"

subsection \<open>What the loops keep and what they write\<close>




































subsection \<open>A template and a client sheet\<close>

text \<open>
  \<open>sample_book\<close> is a workbook whose only sheet \<open>tab1\<close> has a styled heading at (1,1),
  a value without style at (2,1), two column widths, a row height and a merged range;
  its store holds the five objects of the one style. \<open>sample_client\<close> has a value at
  (1,1) and one at (3,4), which is outside the cells of the template.
\<close>

definition sample_style :: cell_style where
  "sample_style =
     \<lparr>font = 0, border = 1, fill = 2, number_format = ''General'', protection = 3, alignment = 4\<rparr>"

definition sample_template :: worksheet where
  "sample_template =
     \<lparr>cells =
        [((1, 1), \<lparr>val = StrV ''Report'', style = Some sample_style\<rparr>),
         ((2, 1), \<lparr>val = StrV ''Total'', style = None\<rparr>)],
      column_dimensions = [(''A'', Some 10), (''B'', Some 15)],
      row_dimensions = [(1, Some 20)],
      merged_cells = [''A1:B1'']\<rparr>"

definition sample_book :: workbook where
  "sample_book =
     \<lparr>sheets = [(''tab1'', sample_template)],
      objs = map_of
        [(0, StyleObj [(''name'', ''Calibri''), (''b'', ''1'')]),
         (1, StyleObj [(''left'', ''thin'')]),
         (2, StyleObj [(''fgColor'', ''FFFF00'')]),
         (3, StyleObj [(''locked'', ''1'')]),
         (4, StyleObj [(''horizontal'', ''center'')])],
      next_addr = 5\<rparr>"

definition sample_client :: worksheet where
  "sample_client =
     empty_worksheet\<lparr>cells :=
       [((1, 1), \<lparr>val = DateTimeV (DateTime 2024 1 1 0 0 0), style = None\<rparr>),
        ((3, 4), \<lparr>val = NumV 7, style = None\<rparr>)]\<rparr>"

section \<open>File names\<close>

text \<open>
  \<open>os.path.basename\<close> and the root part of \<open>os.path.splitext\<close>, for paths with
  \<open>/\<close> as separator: the extension starts at the last dot of the last component,
  unless only dots come before it in that component.
\<close>

definition basename :: "string \<Rightarrow> string" where
  "basename p = rev (takeWhile (\<lambda>c. c \<noteq> CHR ''/'') (rev p))"

definition splitext_root :: "string \<Rightarrow> string" where
  "splitext_root p =
     (let name = basename p;
          dir = take (length p - length name) p;
          stem = rev (drop 1 (dropWhile (\<lambda>c. c \<noteq> CHR ''.'') (rev name)))
      in if CHR ''.'' \<in> set name \<and> (\<exists>c\<in>set stem. c \<noteq> CHR ''.'') then dir @ stem else p)"

text \<open>\<open>s.split(sep)\<close> for a separator of one character, and \<open>sep.join(parts)\<close>.\<close>

fun split_on :: "char \<Rightarrow> string \<Rightarrow> string list" where
  "split_on sep [] = [[]]"
| "split_on sep (c # cs) =
     (if c = sep then [] # split_on sep cs
      else (case split_on sep cs of p # ps \<Rightarrow> (c # p) # ps | [] \<Rightarrow> [[c]]))"

fun join :: "string \<Rightarrow> string list \<Rightarrow> string" where
  "join sep [] = []"
| "join sep [p] = p"
| "join sep (p # q # ps) = p @ sep @ join sep (q # ps)"

definition extract_client_name :: "string \<Rightarrow> string" where
  "extract_client_name filename =
     (let name_without_ext = splitext_root (basename filename);
          parts = split_on CHR ''_'' name_without_ext
      in if 2 \<le> length parts then join ''_'' (butlast parts) else name_without_ext)"

definition extract_date_from_filename :: "string \<Rightarrow> string" where
  "extract_date_from_filename filename =
     (let name_without_ext = splitext_root (basename filename);
          parts = split_on CHR ''_'' name_without_ext
      in if 2 \<le> length parts then last parts else [])"

section \<open>\<open>create_summary_for_client\<close>\<close>

text \<open>
  The world outside the program: what copying \<open>Template.xlsx\<close> to the output file and
  opening the copy gives (the workbook, or the exception raised on the way), what opening
  a client file gives (the active sheet of its workbook, or the exception), and whether
  saving to an output file raises. \<open>template_exists\<close>, \<open>read_account_list\<close> and
  \<open>get_client_files\<close> are the answers of \<open>os.path.exists('Template.xlsx')\<close> and of
  the two functions of these names, which catch their own errors.
\<close>

datatype error = TemplateCopyFailure | FileReadFailure | PersistFailure

record env =
  template_copy :: "string \<Rightarrow> error + workbook"
  load_workbook :: "string \<Rightarrow> error + worksheet"
  save :: "string \<Rightarrow> error option"
  template_exists :: bool
  read_account_list :: "string list"
  get_client_files :: "string list"

text \<open>
  \<open>summary_wb.remove(summary_wb[sheet_name])\<close> when the name is among the sheets, and
  the position of the sheet that \<open>summary_wb['tab1']\<close> refers to.
\<close>

definition remove_sheet :: "string \<Rightarrow> workbook \<Rightarrow> workbook" where
  "remove_sheet sheet_name wb =
     (if sheet_name \<in> set (sheetnames wb)
      then wb\<lparr>sheets :=
             takeWhile (\<lambda>p. fst p \<noteq> sheet_name) (sheets wb) @
             drop 1 (dropWhile (\<lambda>p. fst p \<noteq> sheet_name) (sheets wb))\<rparr>
      else wb)"

definition sheet_index :: "workbook \<Rightarrow> string \<Rightarrow> nat" where
  "sheet_index wb sheet_name = length (takeWhile (\<lambda>p. fst p \<noteq> sheet_name) (sheets wb))"

text \<open>
  The name wanted for the tab of one file (lines 216-230): the date found in the sheet,
  else the date of the file name, else the file name without its extension.
\<close>

definition desired_tab_name :: "worksheet \<Rightarrow> string \<Rightarrow> string" where
  "desired_tab_name client_ws filepath =
     (let sheet_date = extract_date_from_sheet client_ws;
          sheet_date = (if \<not> truthy_str sheet_date then extract_date_from_filename filepath
                        else (case sheet_date of Some d \<Rightarrow> d | None \<Rightarrow> []))
      in if sheet_date \<noteq> [] then sheet_date else splitext_root (basename filepath))"

text \<open>
  The body of the \<open>try\<close> block for one file. The state is the summary workbook and
  \<open>tabs_created\<close>; \<open>Inl\<close> is the exception that the \<open>except\<close> clause catches.
\<close>

definition process_file :: "env \<Rightarrow> nat \<Rightarrow> workbook \<times> nat \<Rightarrow> string \<Rightarrow> error + workbook \<times> nat" where
  "process_file env tab1_template state filepath =
     (let (summary_wb, tabs_created) = state in
      case load_workbook env filepath of
        Inl e \<Rightarrow> Inl e
      | Inr client_ws \<Rightarrow>
          (let new_tab_name = desired_tab_name client_ws filepath;
               new_tab_name = allocate_label new_tab_name (sheetnames summary_wb);
               (summary_wb, new_ws) =
                  copy_tab1_format_with_client_data summary_wb tab1_template client_ws new_tab_name
           in Inr (summary_wb, tabs_created + 1)))"

text \<open>The loop over the files: \<open>except Exception: continue\<close> goes on with the state as it was.\<close>

fun process_files :: "env \<Rightarrow> nat \<Rightarrow> string list \<Rightarrow> workbook \<times> nat \<Rightarrow> workbook \<times> nat" where
  "process_files env tab1_template [] state = state"
| "process_files env tab1_template (filepath # rest) state =
     (case process_file env tab1_template state filepath of
        Inl e \<Rightarrow> process_files env tab1_template rest state
      | Inr state' \<Rightarrow> process_files env tab1_template rest state')"

text \<open>
  What the function gives back: \<open>success\<close> is the value returned, \<open>tabs_created\<close> the
  count it reports, \<open>saved\<close> the workbook written by \<open>save\<close>. \<open>Inl\<close> is an
  exception that leaves the function.
\<close>

record client_result =
  success :: bool
  tabs_created :: nat
  saved :: "workbook option"

definition prune_template :: "workbook \<Rightarrow> workbook" where
  "prune_template summary_wb = fold remove_sheet [''Calculations''] (remove_external_links summary_wb)"

definition create_summary_for_client :: "env \<Rightarrow> string \<Rightarrow> string list \<Rightarrow> error + client_result" where
  "create_summary_for_client env client_name client_files_list =
     (let output_filename = client_name @ ''_summary.xlsx'' in
      case template_copy env output_filename of
        Inl e \<Rightarrow> Inl e
      | Inr summary_wb \<Rightarrow>
          (let summary_wb = prune_template summary_wb in
           if ''tab1'' \<notin> set (sheetnames summary_wb)
           then Inr \<lparr>success = False, tabs_created = 0, saved = None\<rparr>
           else
             (let tab1_template = sheet_index summary_wb ''tab1'';
                  client_files_list = sort_key extract_date_from_filename client_files_list;
                  (summary_wb, tabs_created) =
                     process_files env tab1_template client_files_list (summary_wb, 0)
              in case save env output_filename of
                   Some e \<Rightarrow> Inl e
                 | None \<Rightarrow>
                     Inr \<lparr>success = True, tabs_created = tabs_created, saved = Some summary_wb\<rparr>)))"

section \<open>\<open>create_summary_files\<close>\<close>

text \<open>
  \<open>client_data\<close> is a dictionary from client name to the list of its files, in the
  order in which the names were first met.
\<close>

definition add_client_file :: "string \<Rightarrow> (string \<times> string list) list \<Rightarrow> (string \<times> string list) list" where
  "add_client_file filepath client_data =
     (let client_name = extract_client_name filepath;
          client_data =
            (if client_name \<notin> fst ` set client_data then client_data @ [(client_name, [])]
             else client_data)
      in AList.map_entry client_name (\<lambda>files. files @ [filepath]) client_data)"

datatype batch_result =
  NoTemplate | NoClientFiles | NoMatchingClients
  | Report (successful_clients: "string list") (failed_clients: "string list")

text \<open>
  The loop over the clients (lines 304-309). The call of \<open>create_summary_for_client\<close>
  stands in no \<open>try\<close> block: an exception that leaves it leaves the loop and the program.
\<close>

fun client_loop ::
  "env \<Rightarrow> (string \<times> string list) list \<Rightarrow> string list \<Rightarrow> string list \<Rightarrow> error + batch_result" where
  "client_loop env [] successful failed = Inr (Report successful failed)"
| "client_loop env ((client_name, client_files_list) # rest) successful failed =
     (case create_summary_for_client env client_name client_files_list of
        Inl e \<Rightarrow> Inl e
      | Inr result \<Rightarrow>
          if success result then client_loop env rest (successful @ [client_name]) failed
          else client_loop env rest successful (failed @ [client_name]))"

definition create_summary_files :: "env \<Rightarrow> error + batch_result" where
  "create_summary_files env =
     (if \<not> template_exists env then Inr NoTemplate
      else
        (let clients_from_account_list = read_account_list env;
             client_files = get_client_files env
         in if client_files = [] then Inr NoClientFiles
            else
              (let client_data = fold add_client_file client_files [];
                   client_data =
                     (if clients_from_account_list \<noteq> []
                      then filter (\<lambda>(client_name, files). client_name \<in> set clients_from_account_list)
                             client_data
                      else client_data)
               in if client_data = [] then Inr NoMatchingClients
                  else client_loop env client_data [] [])))"

text \<open>
  Two clients with one file each; saving the summary of the first one raises.
\<close>

definition save_fails_env :: env where
  "save_fails_env =
     \<lparr>template_copy = (\<lambda>output_filename. Inr sample_book),
      load_workbook = (\<lambda>filepath. Inr sample_client),
      save = (\<lambda>output_filename.
                if output_filename = ''Acme_summary.xlsx'' then Some PersistFailure else None),
      template_exists = True,
      read_account_list = [],
      get_client_files = [''client_portfolio/Acme_20240101.xlsx'', ''client_portfolio/Bolt_20240101.xlsx'']\<rparr>"


subsection \<open>Files that cannot be opened\<close>







lemma keeps_other_names:
  "m \<noteq> n \<Longrightarrow>
   m \<in> fst ` set (takeWhile (\<lambda>p. fst p \<noteq> n) xs @ drop 1 (dropWhile (\<lambda>p. fst p \<noteq> n) xs)) \<longleftrightarrow>
   m \<in> fst ` set xs"
  by (induction xs) auto

lemma prune_template_tab1:
  "''tab1'' \<in> set (sheetnames (prune_template wb)) \<longleftrightarrow> ''tab1'' \<in> set (sheetnames wb)"
proof -
  have a: "sheetnames (remove_external_links wb) = sheetnames wb"
    by (simp add: sheetnames_def remove_external_links_def case_prod_beta comp_def)
  have b: "''tab1'' \<in> set (sheetnames (remove_sheet ''Calculations'' w)) \<longleftrightarrow>
      ''tab1'' \<in> set (sheetnames w)" for w
    using keeps_other_names [of "''tab1''" "''Calculations''" "sheets w"]
    by (simp add: remove_sheet_def sheetnames_def)
  show ?thesis by (simp add: prune_template_def a b)
qed


section \<open>The claims\<close>





text \<open>
  Claim C5. The collision loop terminates for every desired label and every list of used
  labels (\<open>alloc_loop\<close> is a total function: its termination proof rests on the
  injectivity of \<open>candidate\<close>). The candidates of increasing counters are pairwise
  distinct, and from any counter on there is a first candidate outside the used labels,
  which is what the loop returns when it is entered.
\<close>

theorem alloc_loop_terminates:
  "inj (candidate original_name) \<and>
   (\<exists>k\<ge>counter. candidate original_name k \<notin> set names \<and>
      (\<forall>j. counter \<le> j \<and> j < k \<longrightarrow> candidate original_name j \<in> set names) \<and>
      alloc_loop names original_name new_tab_name counter =
        (if new_tab_name \<in> set names then candidate original_name k else new_tab_name))"
proof -
  have "inj (candidate original_name)" by (rule injI) (rule candidate_inj)
  moreover from free_candidate_exists [of counter original_name names]
  obtain k where k: "counter \<le> k" "candidate original_name k \<notin> set names"
    "\<forall>j. counter \<le> j \<and> j < k \<longrightarrow> candidate original_name j \<in> set names" by blast
  have "alloc_loop names original_name new_tab_name counter =
        (if new_tab_name \<in> set names then candidate original_name k else new_tab_name)"
  proof (cases "new_tab_name \<in> set names")
    case True
    from alloc_loop_first_free [OF True k(3) k(2) k(1)] True show ?thesis by simp
  next
    case False
    then show ?thesis by (simp add: alloc_loop.simps [of _ _ new_tab_name])
  qed
  ultimately show ?thesis using k by blast
qed

theorem alloc_loop_terminates_witness:
  "inj (candidate ''20240101'') \<and>
   alloc_loop [''20240101'', ''20240101_1''] ''20240101'' ''20240101'' 1 = ''20240101_2''"
proof -
  have "alloc_loop [''20240101'', ''20240101_1''] ''20240101'' ''20240101'' 1 = ''20240101_2''"
    by (simp add: alloc_loop.simps candidate_def py_slice_to_def str_of_nat.simps digit_char_def)
  with alloc_loop_terminates [of "''20240101''" 1 "[''20240101'', ''20240101_1'']" "''20240101''"]
  show ?thesis by blast
qed

text \<open>
  Claim C1 (as amended). \<open>extract_date_from_sheet\<close> scans the first five rows and
  columns once, in row-major order, and returns the date, written as \<open>YYYYMMDD\<close>, of
  the first cell that holds either a \<open>datetime\<close> or a string that one of the formats
  \<open>%Y-%m-%d\<close>, \<open>%m/%d/%Y\<close>, \<open>%d/%m/%Y\<close>, \<open>%Y%m%d\<close> (tried in this order)
  parses; it returns \<open>None\<close> when the window has no such cell. So a \<open>datetime\<close> wins
  over a date string only when no cell before it in row-major order yields a date.
\<close>

theorem extract_date_single_pass:
  "extract_date_from_sheet client_ws =
     first_some (map (\<lambda>rc. cell_date (val (cell_at client_ws rc))) window_cells) \<and>
   (i < length window_cells \<and>
    val (cell_at client_ws (window_cells ! i)) = DateTimeV dt \<and>
    (\<forall>j<i. cell_date (val (cell_at client_ws (window_cells ! j))) = None) \<longrightarrow>
      extract_date_from_sheet client_ws = Some (strftime_ymd dt))"
proof (intro conjI impI)
  show "extract_date_from_sheet client_ws =
     first_some (map (\<lambda>rc. cell_date (val (cell_at client_ws rc))) window_cells)"
    by (rule single_pass)
next
  let ?xs = "map (\<lambda>rc. cell_date (val (cell_at client_ws rc))) window_cells"
  assume a: "i < length window_cells \<and>
    val (cell_at client_ws (window_cells ! i)) = DateTimeV dt \<and>
    (\<forall>j<i. cell_date (val (cell_at client_ws (window_cells ! j))) = None)"
  then have "i < length ?xs" by simp
  moreover from a have "?xs ! i = Some (strftime_ymd dt)" by (simp add: cell_date_def)
  moreover from a have "\<forall>j<i. ?xs ! j = None" by simp
  ultimately have "first_some ?xs = Some (strftime_ymd dt)" by (rule first_some_nth)
  then show "extract_date_from_sheet client_ws = Some (strftime_ymd dt)"
    by (simp only: single_pass)
qed

theorem extract_date_single_pass_witness:
  "window_cells ! 1 = (1, 2) \<and>
   extract_date_from_sheet
     (empty_worksheet\<lparr>cells :=
        [((1, 2), \<lparr>val = DateTimeV (DateTime 2023 5 6 0 0 0), style = None\<rparr>),
         ((1, 3), \<lparr>val = StrV ''2024-01-15'', style = None\<rparr>)]\<rparr>) = Some ''20230506''"
proof -
  let ?ws = "empty_worksheet\<lparr>cells :=
        [((1, 2), \<lparr>val = DateTimeV (DateTime 2023 5 6 0 0 0), style = None\<rparr>),
         ((1, 3), \<lparr>val = StrV ''2024-01-15'', style = None\<rparr>)]\<rparr>"
  have w: "window_cells ! 1 = (1, 2)" "1 < length window_cells"
    by (simp_all add: window_cells_def upt_rec [of _ 6])
  have v: "val (cell_at ?ws (window_cells ! 1)) = DateTimeV (DateTime 2023 5 6 0 0 0)"
    by (simp only: w) (simp add: cell_at_def)
  have "window_cells ! 0 = (1, 1)" by (simp add: window_cells_def upt_rec [of _ 6])
  then have e: "\<forall>j<1. cell_date (val (cell_at ?ws (window_cells ! j))) = None"
    by (simp add: cell_at_def empty_cell_def cell_date_def)
  have f: "strftime_ymd (DateTime 2023 5 6 0 0 0) = ''20230506''"
    by (simp add: strftime_ymd_def zero_pad_def str_of_nat.simps digit_char_def)
  from extract_date_single_pass [of ?ws 1 "DateTime 2023 5 6 0 0 0"] w v e
  have "extract_date_from_sheet ?ws = Some (strftime_ymd (DateTime 2023 5 6 0 0 0))" by blast
  with w f show ?thesis by simp
qed

text \<open>
  Claim C1 as stated (a \<open>datetime\<close> anywhere in the window wins over every date
  string) fails: with the string \<open>2024-01-15\<close> at (1,1) and the \<open>datetime\<close>
  2023-05-06 at (2,2), the scan meets the string first and returns \<open>20240115\<close>, not
  \<open>20230506\<close>.
\<close>

theorem extract_date_counterexample:
  "val (cell_at string_before_datetime (2, 2)) = DateTimeV (DateTime 2023 5 6 0 0 0) \<and>
   val (cell_at string_before_datetime (1, 1)) = StrV ''2024-01-15'' \<and>
   strftime_ymd (DateTime 2023 5 6 0 0 0) = ''20230506'' \<and>
   extract_date_from_sheet string_before_datetime = Some ''20240115''"
  by (simp add: extract_date_from_sheet_def string_before_datetime_def cell_at_def
      empty_cell_def empty_worksheet_def upt_rec [of _ 6] strptime_def re_Y_def re_m_def
      re_d_def two_digits_def one_digit_def is_digit_def digit_val_def valid_date_def
      days_in_month_def is_leap_def strftime_ymd_def zero_pad_def str_of_nat.simps
      digit_char_def truthy_str_def)

text \<open>
  Claim C2 (as amended). For every cell of every sheet, \<open>remove_external_links\<close>
  sets the value to \<open>None\<close> if and only if the value is a string that begins with
  \<open>=\<close>, contains both an opening and a closing bracket, and either matches the pattern
  \<open>\[.*\.xl.*\]\<close> or contains a single quote; every other cell, and the style of every
  cell, is left as it was. So a formula with a quoted sheet qualifier and no brackets is
  kept, and so is a text that is no formula.
\<close>

theorem remove_external_links_cells:
  assumes "i < length (sheets workbook)" and "1 \<le> r" and "1 \<le> c"
  shows "fst (sheets (remove_external_links workbook) ! i) = fst (sheets workbook ! i) \<and>
     cell_at (snd (sheets (remove_external_links workbook) ! i)) (r, c) =
       (if clears (val (cell_at (snd (sheets workbook ! i)) (r, c)))
        then (cell_at (snd (sheets workbook ! i)) (r, c))\<lparr>val := NoneV\<rparr>
        else cell_at (snd (sheets workbook ! i)) (r, c)) \<and>
     (val (cell_at (snd (sheets (remove_external_links workbook) ! i)) (r, c)) \<noteq>
      val (cell_at (snd (sheets workbook ! i)) (r, c))) =
       clears (val (cell_at (snd (sheets workbook ! i)) (r, c))) \<and>
     clears v =
       (\<exists>s. v = StrV s \<and> startswith s ''='' \<and> CHR ''['' \<in> set s \<and> CHR '']'' \<in> set s \<and>
          ((\<exists>a b e d. s = a @ CHR ''['' # b @ ''.xl'' @ e @ CHR '']'' # d \<and>
              CHR 0x0A \<notin> set b \<and> CHR 0x0A \<notin> set e) \<or>
           CHR 0x27 \<in> set s))"
proof -
  obtain name sheet where p: "sheets workbook ! i = (name, sheet)" by (cases "sheets workbook ! i")
  with assms(1) have q: "sheets (remove_external_links workbook) ! i =
      (name, remove_external_links_sheet sheet)"
    by (simp add: remove_external_links_def)
  have a: "cell_at (remove_external_links_sheet sheet) (r, c) = sanitized (cell_at sheet (r, c))"
    using assms(2,3) by (rule remove_external_links_sheet_at)
  have b: "(val (sanitized cell) \<noteq> val cell) = clears (val cell)" for cell
    by (auto simp: sanitized_def clears_def split: py_value.splits)
  have d: "clears v =
       (\<exists>s. v = StrV s \<and> startswith s ''='' \<and> CHR ''['' \<in> set s \<and> CHR '']'' \<in> set s \<and>
          ((\<exists>a b e d. s = a @ CHR ''['' # b @ ''.xl'' @ e @ CHR '']'' # d \<and>
              CHR 0x0A \<notin> set b \<and> CHR 0x0A \<notin> set e) \<or>
           CHR 0x27 \<in> set s))"
    by (cases v) (simp_all add: clears_def re_search_xl_iff)
  from a b [of "cell_at sheet (r, c)"] show ?thesis
    unfolding p q fst_conv snd_conv using d by (simp add: sanitized_def)
qed

theorem remove_external_links_cells_witness:
  "val (cell_at (snd (sheets (remove_external_links quoted_formula_book) ! 0)) (1, 2)) = NoneV \<and>
   val (cell_at (snd (sheets (remove_external_links quoted_formula_book) ! 0)) (2, 1)) =
     StrV ''see [notes]''"
proof -
  have i: "0 < length (sheets quoted_formula_book)" by (simp add: quoted_formula_book_def)
  have s: "snd (sheets quoted_formula_book ! 0) = empty_worksheet\<lparr>cells :=
            [((1, 1), \<lparr>val = StrV (CHR ''='' # CHR 0x27 # ''Sheet 2'' @ CHR 0x27 # ''!A1''), style = None\<rparr>),
             ((1, 2), \<lparr>val = StrV (''='' @ CHR 0x27 # ''[Book1.xlsx]Sheet1'' @ CHR 0x27 # ''!A1''), style = None\<rparr>),
             ((2, 1), \<lparr>val = StrV ''see [notes]'', style = None\<rparr>)]\<rparr>"
    by (simp add: quoted_formula_book_def)
  have a: "val (cell_at (snd (sheets quoted_formula_book ! 0)) (1, 2)) =
      StrV (''='' @ CHR 0x27 # ''[Book1.xlsx]Sheet1'' @ CHR 0x27 # ''!A1'')"
    unfolding s by (simp add: cell_at_def)
  have b: "val (cell_at (snd (sheets quoted_formula_book ! 0)) (2, 1)) = StrV ''see [notes]''"
    unfolding s by (simp add: cell_at_def)
  have ca: "clears (StrV (''='' @ CHR 0x27 # ''[Book1.xlsx]Sheet1'' @ CHR 0x27 # ''!A1''))"
    by (simp add: clears_def startswith_def)
  have cb: "\<not> clears (StrV ''see [notes]'')"
    by (simp add: clears_def startswith_def)
  from remove_external_links_cells [OF i, of 1 2] a ca
  have "val (cell_at (snd (sheets (remove_external_links quoted_formula_book) ! 0)) (1, 2)) = NoneV"
    by simp
  moreover from remove_external_links_cells [OF i, of 2 1] b cb
  have "val (cell_at (snd (sheets (remove_external_links quoted_formula_book) ! 0)) (2, 1)) =
     StrV ''see [notes]''"
    by simp
  ultimately show ?thesis by simp
qed

text \<open>
  Claim C2 as stated (a formula with only a single-quoted qualifier, no brackets, is
  cleared) fails: the innermost test asks for both brackets, and the formula
  \<open>='Sheet 2'!A1\<close> at (1,1) is still there after the scan.
\<close>

theorem remove_external_links_counterexample:
  "val (cell_at (snd (sheets quoted_formula_book ! 0)) (1, 1)) =
     StrV (CHR ''='' # CHR 0x27 # ''Sheet 2'' @ CHR 0x27 # ''!A1'') \<and>
   val (cell_at (snd (sheets (remove_external_links quoted_formula_book) ! 0)) (1, 1)) =
     StrV (CHR ''='' # CHR 0x27 # ''Sheet 2'' @ CHR 0x27 # ''!A1'')"
  by (simp add: quoted_formula_book_def remove_external_links_def remove_external_links_sheet_def
      iter_rows_def max_row_def max_column_def empty_worksheet_def clear_external_cell_def
      cell_at_def set_cell_def startswith_def empty_cell_def upt_rec [of _ "Suc _"])











text \<open>
  Claim C3 (as amended). An error in one input file is caught and the file skipped, and a
  template without the sheet \<open>tab1\<close> makes the client a failed client, after which the
  batch goes on with the next client. An error while copying or opening the template copy
  or while saving the workbook is not caught: it leaves \<open>create_summary_for_client\<close>
  and the loop over the clients, and these are the only errors that leave it.
\<close>

theorem client_errors_propagate:
  "(template_copy env (client_name @ ''_summary.xlsx'') = Inl e \<longrightarrow>
      create_summary_for_client env client_name files = Inl e) \<and>
   (template_copy env (client_name @ ''_summary.xlsx'') = Inr template_wb \<and>
    ''tab1'' \<in> set (sheetnames template_wb) \<and>
    save env (client_name @ ''_summary.xlsx'') = Some e \<longrightarrow>
      create_summary_for_client env client_name files = Inl e) \<and>
   (template_copy env (client_name @ ''_summary.xlsx'') = Inr template_wb \<and>
    ''tab1'' \<notin> set (sheetnames template_wb) \<longrightarrow>
      create_summary_for_client env client_name files =
        Inr \<lparr>success = False, tabs_created = 0, saved = None\<rparr> \<and>
      client_loop env ((client_name, files) # rest) successful failed =
        client_loop env rest successful (failed @ [client_name])) \<and>
   (create_summary_for_client env client_name files = Inl e \<longrightarrow>
      (template_copy env (client_name @ ''_summary.xlsx'') = Inl e \<or>
       save env (client_name @ ''_summary.xlsx'') = Some e) \<and>
      client_loop env ((client_name, files) # rest) successful failed = Inl e)"
proof -
  have a: "create_summary_for_client env client_name files = Inl e"
    if "template_copy env (client_name @ ''_summary.xlsx'') = Inl e"
    using that by (simp add: create_summary_for_client_def)
  have b: "create_summary_for_client env client_name files = Inl e"
    if "template_copy env (client_name @ ''_summary.xlsx'') = Inr template_wb"
      and "''tab1'' \<in> set (sheetnames template_wb)"
      and "save env (client_name @ ''_summary.xlsx'') = Some e"
  proof -
    from that(2) have "''tab1'' \<in> set (sheetnames (prune_template template_wb))"
      by (simp only: prune_template_tab1)
    with that(1,3) show ?thesis
      by (simp add: create_summary_for_client_def Let_def split: prod.splits)
  qed
  have c: "create_summary_for_client env client_name files =
        Inr \<lparr>success = False, tabs_created = 0, saved = None\<rparr>"
    if "template_copy env (client_name @ ''_summary.xlsx'') = Inr template_wb"
      and "''tab1'' \<notin> set (sheetnames template_wb)"
  proof -
    from that(2) have "''tab1'' \<notin> set (sheetnames (prune_template template_wb))"
      by (simp only: prune_template_tab1 not_False_eq_True)
    with that(1) show ?thesis by (simp add: create_summary_for_client_def Let_def)
  qed
  have d: "template_copy env (client_name @ ''_summary.xlsx'') = Inl e \<or>
       save env (client_name @ ''_summary.xlsx'') = Some e"
    if "create_summary_for_client env client_name files = Inl e"
    using that
    by (auto simp: create_summary_for_client_def Let_def split: sum.splits if_splits prod.splits
        option.splits)
  from a b c d show ?thesis by (auto simp del: One_nat_def)
qed

theorem client_errors_propagate_witness:
  "create_summary_for_client save_fails_env ''Acme'' [''client_portfolio/Acme_20240101.xlsx''] =
     Inl PersistFailure \<and>
   client_loop save_fails_env
     [(''Acme'', [''client_portfolio/Acme_20240101.xlsx'']),
      (''Bolt'', [''client_portfolio/Bolt_20240101.xlsx''])] [] [] = Inl PersistFailure"
proof -
  have a: "template_copy save_fails_env (''Acme'' @ ''_summary.xlsx'') = Inr sample_book"
    by (simp add: save_fails_env_def)
  have b: "''tab1'' \<in> set (sheetnames sample_book)" by (simp add: sheetnames_def sample_book_def)
  have c: "save save_fails_env (''Acme'' @ ''_summary.xlsx'') = Some PersistFailure"
    by (simp add: save_fails_env_def)
  from client_errors_propagate [of save_fails_env "''Acme''" PersistFailure
      "[''client_portfolio/Acme_20240101.xlsx'']" sample_book
      "[(''Bolt'', [''client_portfolio/Bolt_20240101.xlsx''])]" "[]" "[]"] a b c
  show ?thesis by blast
qed

text \<open>
  Claim C3 as stated (a failure to save becomes a failed client and the other clients are
  still processed) fails: with two clients, where saving the summary of the first raises,
  \<open>create_summary_files\<close> ends with that exception and gives no report.
\<close>

theorem save_failure_counterexample:
  "save save_fails_env ''Acme_summary.xlsx'' = Some PersistFailure \<and>
   get_client_files save_fails_env =
     [''client_portfolio/Acme_20240101.xlsx'', ''client_portfolio/Bolt_20240101.xlsx''] \<and>
   create_summary_files save_fails_env = Inl PersistFailure"
proof -
  have g: "fold add_client_file (get_client_files save_fails_env) [] =
      [(''Acme'', [''client_portfolio/Acme_20240101.xlsx'']),
       (''Bolt'', [''client_portfolio/Bolt_20240101.xlsx''])]"
    by (simp add: save_fails_env_def add_client_file_def extract_client_name_def basename_def
        splitext_root_def)
  have a: "template_copy save_fails_env (''Acme'' @ ''_summary.xlsx'') = Inr sample_book"
    by (simp add: save_fails_env_def)
  have "''tab1'' \<in> set (sheetnames sample_book)" by (simp add: sheetnames_def sample_book_def)
  then have b: "''tab1'' \<in> set (sheetnames (prune_template sample_book))"
    by (simp only: prune_template_tab1)
  have c: "save save_fails_env (''Acme'' @ ''_summary.xlsx'') = Some PersistFailure"
    by (simp add: save_fails_env_def)
  from a b c have "create_summary_for_client save_fails_env ''Acme''
      [''client_portfolio/Acme_20240101.xlsx''] = Inl PersistFailure"
    by (simp add: create_summary_for_client_def Let_def split: prod.splits)
  then have "client_loop save_fails_env
     [(''Acme'', [''client_portfolio/Acme_20240101.xlsx'']),
      (''Bolt'', [''client_portfolio/Bolt_20240101.xlsx''])] [] [] = Inl PersistFailure"
    by simp
  moreover have "template_exists save_fails_env" "read_account_list save_fails_env = []"
    "get_client_files save_fails_env =
     [''client_portfolio/Acme_20240101.xlsx'', ''client_portfolio/Bolt_20240101.xlsx'']"
    by (simp_all add: save_fails_env_def)
  ultimately have "create_summary_files save_fails_env = Inl PersistFailure"
    using g by (simp add: create_summary_files_def Let_def)
  with c \<open>get_client_files save_fails_env = _\<close> show ?thesis by simp
qed

end
